theory Spec2Isabelle
  imports Complex_Main
begin

section \<open>The signal primitive\<close>

text \<open>
  Both classes of the repository announce their changes through a \<^verbatim>\<open>Signal\<close> of the
  package \<^verbatim>\<open>@phosphor/signaling\<close>, created as \<^verbatim>\<open>new Signal<this, A>(this)\<close> and
  fired as \<^verbatim>\<open>this._changed.emit(args)\<close>. Objects are named by references.
\<close>

type_synonym ref = nat

text \<open>
  Modelled from the spec: the class \<^verbatim>\<open>Signal\<close> (its constructor and \<^verbatim>\<open>emit\<close>) is imported
  by both source files and is not among them. The spec takes it as a given capability:
  synchronous, single producer, ordered delivery, no implicit suspension. A signal is
  therefore its sender and the sequence of notifications it has delivered so far, oldest
  first, each one the pair of the sender and the arguments that observers receive.
\<close>

record 'a Signal =
  sender :: ref
  emitted :: "(ref \<times> 'a) list"

text \<open>
  Modelled from the spec: \<^verbatim>\<open>new Signal(sender)\<close>, whose code is not among the source
  files. A new signal has delivered nothing.
\<close>

definition Signal_new :: "ref \<Rightarrow> 'a Signal" where
  "Signal_new s = \<lparr>sender = s, emitted = []\<rparr>"

text \<open>
  Modelled from the spec: \<^verbatim>\<open>signal.emit(args)\<close>, whose code is not among the source
  files. The emission is synchronous: it has been delivered when \<^verbatim>\<open>emit\<close> returns.
\<close>

definition emit :: "'a Signal \<Rightarrow> 'a \<Rightarrow> 'a Signal" where
  "emit sg args = sg\<lparr>emitted := emitted sg @ [(sender sg, args)]\<rparr>"

section \<open>JavaScript numbers\<close>

text \<open>
  The values of the type \<^verbatim>\<open>number\<close>: the finite values, taken among the reals, the
  negative zero, the two infinities and NaN. \<open>Num 0\<close> is the positive zero.
\<close>

datatype number = Num real | NegZero | PosInfinity | NegInfinity | NaN

text \<open>
  The operator \<^verbatim>\<open>===\<close> on two numbers: NaN is equal to no number, itself included, the
  two zeros are equal to each other, and any other two numbers are equal when they are
  the same value. On strings and on booleans \<^verbatim>\<open>===\<close> is equality.
\<close>

fun strict_eq :: "number \<Rightarrow> number \<Rightarrow> bool" where
  "strict_eq NaN y = False"
| "strict_eq x NaN = False"
| "strict_eq NegZero (Num y) = (y = 0)"
| "strict_eq (Num x) NegZero = (x = 0)"
| "strict_eq x y = (x = y)"

section \<open>Title (title.ts)\<close>

text \<open>
  A JavaScript string used as a condition is true exactly when it is not empty:
  this is the test of \<^verbatim>\<open>if (value)\<close> and of the left operand of \<^verbatim>\<open>||\<close>.
\<close>

definition truthy :: "string \<Rightarrow> bool" where
  "truthy s = (s \<noteq> [])"

text \<open>
  \<^verbatim>\<open>Title.IOptions<T>\<close>: every field but the owner is optional, and an absent field
  reads \<^verbatim>\<open>undefined\<close>. An object of type \<^verbatim>\<open>{ [key: string]: string }\<close> is the list of its
  entries in the order \<^verbatim>\<open>for ... in\<close> enumerates them; the keys of an object are distinct.
\<close>

record 'o IOptions =
  opt_owner :: 'o
  opt_label :: "string option"
  opt_mnemonic :: "number option"
  opt_icon :: "string option"
  opt_caption :: "string option"
  opt_className :: "string option"
  opt_closable :: "bool option"
  opt_dataset :: "(string \<times> string) list option"

text \<open>
  The fields of a title. Each getter of the class returns its private field, so the
  selectors below are the getters \<^verbatim>\<open>label\<close>, \<^verbatim>\<open>mnemonic\<close>, \<^verbatim>\<open>icon\<close>, \<^verbatim>\<open>caption\<close>,
  \<^verbatim>\<open>className\<close>, \<^verbatim>\<open>closable\<close> and \<^verbatim>\<open>changed\<close>. The mnemonic is declared a
  \<^verbatim>\<open>number\<close>: any number can be assigned to it. The dataset is created by
  \<^verbatim>\<open>Object.create(null)\<close>: it has no inherited keys, so it is a map from keys to values.
\<close>

record 'o Title =
  owner :: 'o
  icon :: string
  label :: string
  caption :: string
  mnemonic :: number
  className :: string
  closable :: bool
  changed :: "unit Signal"
  dataset :: "string \<rightharpoonup> string"

text \<open>The loop of the constructor over \<^verbatim>\<open>options.dataset\<close>: only truthy values are stored.\<close>

fun init_dataset :: "(string \<times> string) list \<Rightarrow> (string \<rightharpoonup> string) \<Rightarrow> (string \<rightharpoonup> string)" where
  "init_dataset [] d = d"
| "init_dataset ((key, v) # rest) d = init_dataset rest (if truthy v then d(key \<mapsto> v) else d)"

text \<open>
  The constructor: the field initialisers first (empty strings, \<open>-1\<close>, \<open>False\<close>, a new
  signal whose sender is the title itself, an empty dataset), then every option that
  is not \<^verbatim>\<open>undefined\<close>. \<open>this\<close> is the reference of the title being constructed.
\<close>

definition Title_new :: "ref \<Rightarrow> 'o IOptions \<Rightarrow> 'o Title" where
  "Title_new this options =
     \<lparr>owner = opt_owner options,
      icon = (case opt_icon options of None \<Rightarrow> '''' | Some v \<Rightarrow> v),
      label = (case opt_label options of None \<Rightarrow> '''' | Some v \<Rightarrow> v),
      caption = (case opt_caption options of None \<Rightarrow> '''' | Some v \<Rightarrow> v),
      mnemonic = (case opt_mnemonic options of None \<Rightarrow> Num (- 1) | Some v \<Rightarrow> v),
      className = (case opt_className options of None \<Rightarrow> '''' | Some v \<Rightarrow> v),
      closable = (case opt_closable options of None \<Rightarrow> False | Some v \<Rightarrow> v),
      changed = Signal_new this,
      dataset = (case opt_dataset options of None \<Rightarrow> Map.empty
                 | Some ds \<Rightarrow> init_dataset ds Map.empty)\<rparr>"

text \<open>
  The six setters: return when the field is \<^verbatim>\<open>===\<close> to the value, else assign and emit.
\<close>

definition set_label :: "'o Title \<Rightarrow> string \<Rightarrow> 'o Title" where
  "set_label t v =
     (if label t = v then t else t\<lparr>label := v, changed := emit (changed t) ()\<rparr>)"

definition set_mnemonic :: "'o Title \<Rightarrow> number \<Rightarrow> 'o Title" where
  "set_mnemonic t v =
     (if strict_eq (mnemonic t) v then t
      else t\<lparr>mnemonic := v, changed := emit (changed t) ()\<rparr>)"

definition set_icon :: "'o Title \<Rightarrow> string \<Rightarrow> 'o Title" where
  "set_icon t v =
     (if icon t = v then t else t\<lparr>icon := v, changed := emit (changed t) ()\<rparr>)"

definition set_caption :: "'o Title \<Rightarrow> string \<Rightarrow> 'o Title" where
  "set_caption t v =
     (if caption t = v then t else t\<lparr>caption := v, changed := emit (changed t) ()\<rparr>)"

definition set_className :: "'o Title \<Rightarrow> string \<Rightarrow> 'o Title" where
  "set_className t v =
     (if className t = v then t else t\<lparr>className := v, changed := emit (changed t) ()\<rparr>)"

definition set_closable :: "'o Title \<Rightarrow> bool \<Rightarrow> 'o Title" where
  "set_closable t v =
     (if closable t = v then t else t\<lparr>closable := v, changed := emit (changed t) ()\<rparr>)"

text \<open>\<^verbatim>\<open>getData(key)\<close> is \<^verbatim>\<open>this._dataset[key] || ''\<close>: an absent key reads \<^verbatim>\<open>undefined\<close>.\<close>

definition getData :: "'o Title \<Rightarrow> string \<Rightarrow> string" where
  "getData t key =
     (case dataset t key of None \<Rightarrow> '''' | Some v \<Rightarrow> if truthy v then v else '''')"

text \<open>
  \<^verbatim>\<open>setData(key, value)\<close> compares \<open>value\<close> with \<^verbatim>\<open>this._dataset[key] || ''\<close>, the
  expression of \<^verbatim>\<open>getData\<close>; a truthy value is then stored, any other value deletes the key.
\<close>

definition setData :: "'o Title \<Rightarrow> string \<Rightarrow> string \<Rightarrow> 'o Title" where
  "setData t key v =
     (if v = getData t key then t
      else let t' = (if truthy v then t\<lparr>dataset := (dataset t)(key \<mapsto> v)\<rparr>
                     else t\<lparr>dataset := (dataset t)(key := None)\<rparr>)
           in t'\<lparr>changed := emit (changed t') ()\<rparr>)"

text \<open>
  The loop of \<^verbatim>\<open>updateData\<close> over the entries of \<^verbatim>\<open>values\<close>; \<open>chg\<close> is the local
  variable \<^verbatim>\<open>changed\<close>. The signal is emitted once after the loop, if \<open>chg\<close> is set.
\<close>

fun updateData_loop :: "(string \<times> string) list \<Rightarrow> 'o Title \<Rightarrow> bool \<Rightarrow> 'o Title \<times> bool" where
  "updateData_loop [] t chg = (t, chg)"
| "updateData_loop ((key, v) # rest) t chg =
     (if v = getData t key then updateData_loop rest t chg
      else updateData_loop rest
             (if truthy v then t\<lparr>dataset := (dataset t)(key \<mapsto> v)\<rparr>
              else t\<lparr>dataset := (dataset t)(key := None)\<rparr>) True)"

definition updateData :: "'o Title \<Rightarrow> (string \<times> string) list \<Rightarrow> 'o Title" where
  "updateData t vals =
     (case updateData_loop vals t False of
        (t', chg) \<Rightarrow> if chg then t'\<lparr>changed := emit (changed t') ()\<rparr> else t')"

text \<open>The number of change notifications a title has emitted so far.\<close>

definition notifications :: "'o Title \<Rightarrow> nat" where
  "notifications t = length (emitted (changed t))"

text \<open>
  No path of the class stores an empty string in the dataset: the constructor, \<^verbatim>\<open>setData\<close>
  and \<^verbatim>\<open>updateData\<close> all test the value before the assignment.
\<close>

definition dataset_inv :: "'o Title \<Rightarrow> bool" where
  "dataset_inv t = ('''' \<notin> ran (dataset t))"

text \<open>
  The operations of a title, for statements about every operation and about sequences
  of them over the life of a title.
\<close>

datatype title_op =
    SetLabel string
  | SetMnemonic number
  | SetIcon string
  | SetCaption string
  | SetClassName string
  | SetClosable bool
  | SetData string string
  | UpdateData "(string \<times> string) list"

fun apply_op :: "'o Title \<Rightarrow> title_op \<Rightarrow> 'o Title" where
  "apply_op t (SetLabel v) = set_label t v"
| "apply_op t (SetMnemonic v) = set_mnemonic t v"
| "apply_op t (SetIcon v) = set_icon t v"
| "apply_op t (SetCaption v) = set_caption t v"
| "apply_op t (SetClassName v) = set_className t v"
| "apply_op t (SetClosable v) = set_closable t v"
| "apply_op t (SetData key v) = setData t key v"
| "apply_op t (UpdateData vals) = updateData t vals"

section \<open>The change events and DataModel (datamodel.ts)\<close>

text \<open>
  \<^verbatim>\<open>IDataModel.ChangedArgs\<close> is the union of five interfaces. The \<^verbatim>\<open>type\<close> field of the
  first three is one of two string literals, for rows or for columns. The datatype below
  holds the args objects that a model builds from the declared fields alone, with
  indices and counts of rows and columns, integers. The constructors carry, in
  the order of the source: \<^verbatim>\<open>index\<close>, \<^verbatim>\<open>span\<close>; \<^verbatim>\<open>index\<close>, \<^verbatim>\<open>span\<close>; \<^verbatim>\<open>fromIndex\<close>,
  \<^verbatim>\<open>toIndex\<close>, \<^verbatim>\<open>span\<close>; \<^verbatim>\<open>rowIndex\<close>, \<^verbatim>\<open>colIndex\<close>, \<^verbatim>\<open>rowSpan\<close>, \<^verbatim>\<open>colSpan\<close>.
\<close>

datatype axis = Rows | Cols

datatype ChangedArgs =
    SectionsInserted axis int int
  | SectionsRemoved axis int int
  | SectionsMoved axis int int int
  | CellsChanged int int int int
  | ModelChanged

text \<open>The \<^verbatim>\<open>type\<close> field of an args object, as the string the source writes.\<close>

fun type_tag :: "ChangedArgs \<Rightarrow> string" where
  "type_tag (SectionsInserted Rows index span') = ''rows-inserted''"
| "type_tag (SectionsInserted Cols index span') = ''cols-inserted''"
| "type_tag (SectionsRemoved Rows index span') = ''rows-removed''"
| "type_tag (SectionsRemoved Cols index span') = ''cols-removed''"
| "type_tag (SectionsMoved Rows fromIndex toIndex span') = ''rows-moved''"
| "type_tag (SectionsMoved Cols fromIndex toIndex span') = ''cols-moved''"
| "type_tag (CellsChanged rowIndex colIndex rowSpan colSpan) = ''cells-changed''"
| "type_tag ModelChanged = ''model-changed''"

text \<open>
  The five interfaces as TypeScript checks them. An args object is a map from property
  names to values (values that are themselves objects are left out). An object has an
  interface when it has every property the interface declares, of the declared type:
  a \<^verbatim>\<open>type\<close> that is one of the string literals, and a number for each numeric field. An
  interface says nothing of other properties, so an object with more still has it.
\<close>

datatype jsval = JUndefined | JNull | JBoolean bool | JNumber number | JString string

type_synonym jsobject = "string \<rightharpoonup> jsval"

definition has_number :: "jsobject \<Rightarrow> string \<Rightarrow> bool" where
  "has_number obj name = (case obj name of Some (JNumber x) \<Rightarrow> True | _ \<Rightarrow> False)"

definition has_type :: "jsobject \<Rightarrow> string list \<Rightarrow> bool" where
  "has_type obj literals =
     (case obj ''type'' of Some (JString s) \<Rightarrow> s \<in> set literals | _ \<Rightarrow> False)"

definition ISectionsInsertedArgs :: "jsobject \<Rightarrow> bool" where
  "ISectionsInsertedArgs obj =
     (has_type obj [''rows-inserted'', ''cols-inserted''] \<and>
      has_number obj ''index'' \<and> has_number obj ''span'')"

definition ISectionsRemovedArgs :: "jsobject \<Rightarrow> bool" where
  "ISectionsRemovedArgs obj =
     (has_type obj [''rows-removed'', ''cols-removed''] \<and>
      has_number obj ''index'' \<and> has_number obj ''span'')"

definition ISectionsMovedArgs :: "jsobject \<Rightarrow> bool" where
  "ISectionsMovedArgs obj =
     (has_type obj [''rows-moved'', ''cols-moved''] \<and>
      has_number obj ''fromIndex'' \<and> has_number obj ''toIndex'' \<and> has_number obj ''span'')"

definition ICellsChangedArgs :: "jsobject \<Rightarrow> bool" where
  "ICellsChangedArgs obj =
     (has_type obj [''cells-changed''] \<and>
      has_number obj ''rowIndex'' \<and> has_number obj ''colIndex'' \<and>
      has_number obj ''rowSpan'' \<and> has_number obj ''colSpan'')"

definition IModelChangedArgs :: "jsobject \<Rightarrow> bool" where
  "IModelChangedArgs obj = has_type obj [''model-changed'']"

text \<open>The type alias \<^verbatim>\<open>ChangedArgs\<close>: the union of the five interfaces.\<close>

definition is_ChangedArgs :: "jsobject \<Rightarrow> bool" where
  "is_ChangedArgs obj =
     (ISectionsInsertedArgs obj \<or> ISectionsRemovedArgs obj \<or> ISectionsMovedArgs obj \<or>
      ICellsChangedArgs obj \<or> IModelChangedArgs obj)"

text \<open>
  The object that a value of the datatype \<open>ChangedArgs\<close> stands for: the tag and the
  fields that its interface declares, and no other property.
\<close>

fun args_object :: "ChangedArgs \<Rightarrow> jsobject" where
  "args_object (SectionsInserted ax index span') =
     [''type'' \<mapsto> JString (type_tag (SectionsInserted ax index span')),
      ''index'' \<mapsto> JNumber (Num (of_int index)), ''span'' \<mapsto> JNumber (Num (of_int span'))]"
| "args_object (SectionsRemoved ax index span') =
     [''type'' \<mapsto> JString (type_tag (SectionsRemoved ax index span')),
      ''index'' \<mapsto> JNumber (Num (of_int index)), ''span'' \<mapsto> JNumber (Num (of_int span'))]"
| "args_object (SectionsMoved ax fromIndex toIndex span') =
     [''type'' \<mapsto> JString (type_tag (SectionsMoved ax fromIndex toIndex span')),
      ''fromIndex'' \<mapsto> JNumber (Num (of_int fromIndex)),
      ''toIndex'' \<mapsto> JNumber (Num (of_int toIndex)),
      ''span'' \<mapsto> JNumber (Num (of_int span'))]"
| "args_object (CellsChanged rowIndex colIndex rowSpan colSpan) =
     [''type'' \<mapsto> JString (type_tag (CellsChanged rowIndex colIndex rowSpan colSpan)),
      ''rowIndex'' \<mapsto> JNumber (Num (of_int rowIndex)),
      ''colIndex'' \<mapsto> JNumber (Num (of_int colIndex)),
      ''rowSpan'' \<mapsto> JNumber (Num (of_int rowSpan)),
      ''colSpan'' \<mapsto> JNumber (Num (of_int colSpan))]"
| "args_object ModelChanged = [''type'' \<mapsto> JString (type_tag ModelChanged)]"

text \<open>
  The bound that the spec's event algebra puts on the spans of an event: at least one
  row or column is inserted, removed or moved, and a changed range of cells has at
  least one row and one column.
\<close>

fun spans_ok :: "ChangedArgs \<Rightarrow> bool" where
  "spans_ok (SectionsInserted ax index span') = (1 \<le> span')"
| "spans_ok (SectionsRemoved ax index span') = (1 \<le> span')"
| "spans_ok (SectionsMoved ax fromIndex toIndex span') = (1 \<le> span')"
| "spans_ok (CellsChanged rowIndex colIndex rowSpan colSpan) = (1 \<le> rowSpan \<and> 1 \<le> colSpan)"
| "spans_ok ModelChanged = True"

text \<open>
  \<^verbatim>\<open>DataModel\<close> is an abstract class: \<^verbatim>\<open>rowCount\<close>, \<^verbatim>\<open>colCount\<close> and \<^verbatim>\<open>data\<close> have no
  body. Its one field, \<^verbatim>\<open>_changed\<close>, holds a reference to the signal created with the
  model. Models and signals are objects of a store, since the claims speak of which
  signal the getter returns and of who the sender is.
\<close>

record DataModel =
  signal_ref :: ref

record store =
  models :: "ref \<Rightarrow> DataModel"
  signals :: "ref \<Rightarrow> ChangedArgs Signal"

text \<open>
  Construction: the field initialiser \<^verbatim>\<open>_changed = new Signal(this)\<close>. \<open>this\<close> and \<open>sg\<close>
  are the references allocated for the model and for its signal.
\<close>

definition DataModel_new :: "ref \<Rightarrow> ref \<Rightarrow> store \<Rightarrow> store" where
  "DataModel_new this sg st =
     st\<lparr>signals := (signals st)(sg := Signal_new this),
        models := (models st)(this := \<lparr>signal_ref = sg\<rparr>)\<rparr>"

text \<open>The getter \<^verbatim>\<open>changed\<close> returns \<^verbatim>\<open>this._changed\<close>.\<close>

definition DataModel_changed :: "store \<Rightarrow> ref \<Rightarrow> ref" where
  "DataModel_changed st this = signal_ref (models st this)"

text \<open>\<^verbatim>\<open>emitChanged(args)\<close> is \<^verbatim>\<open>this._changed.emit(args)\<close>, on the signal in the store.\<close>

definition emitChanged :: "ref \<Rightarrow> ChangedArgs \<Rightarrow> store \<Rightarrow> store" where
  "emitChanged this args st =
     (let sg = signal_ref (models st this)
      in st\<lparr>signals := (signals st)(sg := emit (signals st sg) args)\<rparr>)"

text \<open>What the observers of the signal that the getter returns have received so far.\<close>

definition delivered :: "store \<Rightarrow> ref \<Rightarrow> (ref \<times> ChangedArgs) list" where
  "delivered st this = emitted (signals st (DataModel_changed st this))"

text \<open>
  \<open>this\<close> is a model of the store when its \<^verbatim>\<open>_changed\<close> field refers to a signal whose
  sender it is, which is what construction sets up.
\<close>

definition is_DataModel :: "store \<Rightarrow> ref \<Rightarrow> bool" where
  "is_DataModel st this = (sender (signals st (signal_ref (models st this))) = this)"

section \<open>The cell addressing rule\<close>

text \<open>
  Modelled from the spec: the source declares \<^verbatim>\<open>data(row, col, out)\<close> in an interface and
  as an abstract method, and no function of the source files classifies a pair of
  coordinates. The four lines of the spec's rule, which the comment on
  \<^verbatim>\<open>IDataModel.data\<close> states in prose, are the four equations of \<open>denotes\<close>.
\<close>

datatype cell_category = body | column_header | row_header | corner

fun denotes :: "int \<Rightarrow> int \<Rightarrow> cell_category \<Rightarrow> bool" where
  "denotes row col body = (0 \<le> row \<and> 0 \<le> col)"
| "denotes row col column_header = (row < 0 \<and> 0 \<le> col)"
| "denotes row col row_header = (0 \<le> row \<and> col < 0)"
| "denotes row col corner = (row < 0 \<and> col < 0)"

text \<open>The rule as a function: the categories that a pair denotes, which is one.\<close>

definition categories :: "int \<Rightarrow> int \<Rightarrow> cell_category list" where
  "categories row col = filter (denotes row col) [body, column_header, row_header, corner]"

section \<open>Example values\<close>

definition options0 :: "nat IOptions" where
  "options0 =
     \<lparr>opt_owner = 7, opt_label = Some ''tab'', opt_mnemonic = None, opt_icon = None,
      opt_caption = Some ''a tab'', opt_className = None, opt_closable = Some True,
      opt_dataset = Some [(''a'', ''x''), (''b'', '''')]\<rparr>"

definition title0 :: "nat Title" where
  "title0 = Title_new 0 options0"

definition title_NaN :: "nat Title" where
  "title_NaN = Title_new 0 (options0\<lparr>opt_mnemonic := Some NaN\<rparr>)"

definition args_extra :: jsobject where
  "args_extra = [''type'' \<mapsto> JString ''model-changed'', ''span'' \<mapsto> JNumber (Num 0)]"

definition store0 :: store where
  "store0 =
     DataModel_new 1 2 \<lparr>models = (\<lambda>r. \<lparr>signal_ref = 0\<rparr>), signals = (\<lambda>r. Signal_new 0)\<rparr>"

section \<open>Properties of Title\<close>

subsection \<open>Reading the dataset\<close>

lemma getData_changed_update [simp]: "getData (t\<lparr>changed := s\<rparr>) key = getData t key"
  by (simp add: getData_def)

lemma getData_dataset_other:
  "k \<noteq> key \<Longrightarrow> getData (t\<lparr>dataset := (dataset t)(key := x)\<rparr>) k = getData t k"
  by (simp add: getData_def)

lemma getData_dataset_same:
  "getData (if truthy v then t\<lparr>dataset := (dataset t)(key \<mapsto> v)\<rparr>
            else t\<lparr>dataset := (dataset t)(key := None)\<rparr>) key = v"
  by (simp add: getData_def truthy_def)

subsection \<open>The loop of the constructor\<close>

lemma init_dataset_lookup:
  "distinct (map fst ds) \<Longrightarrow>
   init_dataset ds d k =
     (case map_of ds k of None \<Rightarrow> d k | Some v \<Rightarrow> if truthy v then Some v else d k)"
proof (induction ds arbitrary: d)
  case Nil
  show ?case by simp
next
  case (Cons e ds)
  obtain key v where e: "e = (key, v)" by (cases e)
  from Cons.prems have fresh: "map_of ds key = None" and dist: "distinct (map fst ds)"
    by (auto simp: e map_of_eq_None_iff)
  show ?case
    using Cons.IH [OF dist, of "if truthy v then d(key \<mapsto> v) else d"] fresh
    by (cases "k = key") (simp_all add: e split: option.split)
qed

lemma init_dataset_other: "k \<notin> fst ` set ds \<Longrightarrow> init_dataset ds d k = d k"
  by (induction ds arbitrary: d) auto

subsection \<open>The loop of updateData\<close>

lemma updateData_alt:
  "updateData t vals =
     (if snd (updateData_loop vals t False)
      then (fst (updateData_loop vals t False))
             \<lparr>changed := emit (changed (fst (updateData_loop vals t False))) ()\<rparr>
      else fst (updateData_loop vals t False))"
  by (simp add: updateData_def split: prod.split)

lemma updateData_loop_frame_ex:
  "\<exists>d. fst (updateData_loop vals t chg) = t\<lparr>dataset := d\<rparr>"
proof (induction vals arbitrary: t chg)
  case Nil
  have "\<exists>d. t = t\<lparr>dataset := d\<rparr>"
    by (rule exI [of _ "dataset t"]) simp
  then show ?case by simp
next
  case (Cons e vals)
  obtain key v where e: "e = (key, v)" by (cases e)
  show ?case
  proof (cases "v = getData t key")
    case True
    then show ?thesis
      using Cons.IH [of t chg] by (simp add: e)
  next
    case False
    define t' where "t' = (if truthy v then t\<lparr>dataset := (dataset t)(key \<mapsto> v)\<rparr>
                           else t\<lparr>dataset := (dataset t)(key := None)\<rparr>)"
    have step: "updateData_loop (e # vals) t chg = updateData_loop vals t' True"
      using False by (simp add: e t'_def)
    obtain d where d: "fst (updateData_loop vals t' True) = t'\<lparr>dataset := d\<rparr>"
      using Cons.IH [of t' True] by blast
    have "t'\<lparr>dataset := d\<rparr> = t\<lparr>dataset := d\<rparr>"
      by (simp add: t'_def)
    with d show ?thesis
      unfolding step by auto
  qed
qed

lemma updateData_loop_frame:
  "fst (updateData_loop vals t chg) = t\<lparr>dataset := dataset (fst (updateData_loop vals t chg))\<rparr>"
proof -
  obtain d where d: "fst (updateData_loop vals t chg) = t\<lparr>dataset := d\<rparr>"
    using updateData_loop_frame_ex by blast
  show ?thesis
    unfolding d by simp
qed

lemma updateData_loop_flag:
  "snd (updateData_loop vals t chg) = (chg \<or> (\<exists>e \<in> set vals. snd e \<noteq> getData t (fst e)))"
proof (induction vals arbitrary: t chg)
  case Nil
  show ?case by simp
next
  case (Cons e vals)
  obtain key v where e: "e = (key, v)" by (cases e)
  show ?case
  proof (cases "v = getData t key")
    case True
    then show ?thesis
      using Cons.IH [of t chg] by (simp add: e)
  next
    case False
    then show ?thesis
      using Cons.IH [of _ True] by (simp add: e)
  qed
qed

lemma updateData_loop_getData:
  "distinct (map fst vals) \<Longrightarrow>
   getData (fst (updateData_loop vals t chg)) k =
     (case map_of vals k of None \<Rightarrow> getData t k | Some v \<Rightarrow> v)"
proof (induction vals arbitrary: t chg)
  case Nil
  show ?case by simp
next
  case (Cons e vals)
  obtain key v where e: "e = (key, v)" by (cases e)
  from Cons.prems have fresh: "map_of vals key = None" and d: "distinct (map fst vals)"
    by (auto simp: e map_of_eq_None_iff)
  show ?case
  proof (cases "v = getData t key")
    case True
    then show ?thesis
      using Cons.IH [OF d, of t chg] fresh by (simp add: e)
  next
    case False
    define t' where "t' = (if truthy v then t\<lparr>dataset := (dataset t)(key \<mapsto> v)\<rparr>
                           else t\<lparr>dataset := (dataset t)(key := None)\<rparr>)"
    have step: "updateData_loop (e # vals) t chg = updateData_loop vals t' True"
      using False by (simp add: e t'_def)
    have same: "getData t' key = v"
      unfolding t'_def by (rule getData_dataset_same)
    have other: "getData t' k = getData t k" if "k \<noteq> key"
      using that by (simp add: t'_def getData_dataset_other)
    show ?thesis
      unfolding step using Cons.IH [OF d, of t' True] fresh same other
      by (cases "k = key") (simp_all add: e split: option.split)
  qed
qed

lemma updateData_loop_dataset_other:
  "k \<notin> fst ` set vals \<Longrightarrow> dataset (fst (updateData_loop vals t chg)) k = dataset t k"
  by (induction vals arbitrary: t chg) auto

lemma updateData_loop_changed:
  "changed (fst (updateData_loop vals t chg)) = changed t"
  by (induction vals arbitrary: t chg) auto

lemma notifications_updateData:
  "notifications (updateData t vals) =
     notifications t + (if snd (updateData_loop vals t False) then 1 else 0)"
  by (simp add: updateData_alt notifications_def emit_def updateData_loop_changed)

lemma getData_updateData:
  "getData (updateData t vals) k = getData (fst (updateData_loop vals t False)) k"
  by (simp add: updateData_alt)

subsection \<open>No empty string is stored\<close>

lemma dataset_inv_Title_new: "dataset_inv (Title_new this options)"
proof -
  have "'''' \<notin> ran (init_dataset ds d)" if "'''' \<notin> ran d" for ds and d :: "string \<rightharpoonup> string"
    using that
  proof (induction ds arbitrary: d)
    case Nil
    then show ?case by simp
  next
    case (Cons e ds)
    obtain key v where e: "e = (key, v)" by (cases e)
    have "'''' \<notin> ran (if truthy v then d(key \<mapsto> v) else d)"
      using Cons.prems by (auto simp: truthy_def ran_def)
    then show ?case
      unfolding e init_dataset.simps by (rule Cons.IH)
  qed
  then show ?thesis
    by (simp add: dataset_inv_def Title_new_def split: option.split)
qed

lemma dataset_inv_step:
  "dataset_inv t \<Longrightarrow>
   dataset_inv (if truthy v then t\<lparr>dataset := (dataset t)(key \<mapsto> v)\<rparr>
                else t\<lparr>dataset := (dataset t)(key := None)\<rparr>)"
  by (auto simp: dataset_inv_def truthy_def ran_def split: if_splits)

lemma dataset_inv_changed_update [simp]: "dataset_inv (t\<lparr>changed := s\<rparr>) = dataset_inv t"
  by (simp add: dataset_inv_def)

lemma dataset_inv_updateData_loop:
  "dataset_inv t \<Longrightarrow> dataset_inv (fst (updateData_loop vals t chg))"
proof (induction vals arbitrary: t chg)
  case Nil
  then show ?case by simp
next
  case (Cons e vals)
  obtain key v where e: "e = (key, v)" by (cases e)
  show ?case
  proof (cases "v = getData t key")
    case True
    then show ?thesis
      using Cons.IH [OF Cons.prems, of chg] by (simp add: e)
  next
    case False
    then show ?thesis
      using Cons.IH [OF dataset_inv_step [OF Cons.prems, of v key], of True] by (simp add: e)
  qed
qed

lemma dataset_inv_apply_op: "dataset_inv t \<Longrightarrow> dataset_inv (apply_op t op)"
proof (cases op)
  case (SetData key v)
  assume inv: "dataset_inv t"
  from inv dataset_inv_step [OF inv, of v key] show ?thesis
    by (simp add: SetData setData_def Let_def)
next
  case (UpdateData vals)
  assume "dataset_inv t"
  from dataset_inv_updateData_loop [OF this, of vals False] show ?thesis
    by (simp add: UpdateData updateData_alt)
qed (simp_all add: dataset_inv_def set_label_def set_mnemonic_def set_icon_def set_caption_def
       set_className_def set_closable_def)

lemma dataset_inv_reachable: "dataset_inv (foldl apply_op (Title_new this options) ops)"
proof -
  have "dataset_inv t \<Longrightarrow> dataset_inv (foldl apply_op t ops)" for t :: "'a Title"
    by (induction ops arbitrary: t) (simp_all add: dataset_inv_apply_op)
  then show ?thesis
    using dataset_inv_Title_new by blast
qed

subsection \<open>The setters\<close>

lemma strict_eq_same: "strict_eq x x = (x \<noteq> NaN)"
  by (cases x) simp_all

lemma strict_eq_other:
  "x \<noteq> y \<Longrightarrow> strict_eq x y = (x = Num 0 \<and> y = NegZero \<or> x = NegZero \<and> y = Num 0)"
  by (cases x; cases y) auto

text \<open>
  Claim C1, as the code has it. For the setters of label, icon, caption, className and
  closable and every title: assigning the current value of the field returns the same
  state, with no notification; assigning any other value stores it in the field and
  emits exactly one notification of the \<^verbatim>\<open>changed\<close> signal. The setter of mnemonic does
  the same with \<^verbatim>\<open>===\<close> as the comparison: a value \<^verbatim>\<open>===\<close> to the current one changes
  nothing, any other value is stored and emits exactly one notification. So assigning
  the current mnemonic changes nothing unless it is NaN, and a value other than the
  current one is stored and notified unless the two are the two zeros.
\<close>

theorem setter_notifies:
  "set_label t (label t) = t \<and>
   (l \<noteq> label t \<longrightarrow>
      label (set_label t l) = l \<and> notifications (set_label t l) = notifications t + 1) \<and>
   (strict_eq (mnemonic t) m \<longrightarrow> set_mnemonic t m = t) \<and>
   (\<not> strict_eq (mnemonic t) m \<longrightarrow>
      mnemonic (set_mnemonic t m) = m \<and> notifications (set_mnemonic t m) = notifications t + 1) \<and>
   (mnemonic t \<noteq> NaN \<longrightarrow> set_mnemonic t (mnemonic t) = t) \<and>
   (m \<noteq> mnemonic t \<and> \<not> (m = Num 0 \<and> mnemonic t = NegZero) \<and>
    \<not> (m = NegZero \<and> mnemonic t = Num 0) \<longrightarrow>
      mnemonic (set_mnemonic t m) = m \<and> notifications (set_mnemonic t m) = notifications t + 1) \<and>
   set_icon t (icon t) = t \<and>
   (i \<noteq> icon t \<longrightarrow>
      icon (set_icon t i) = i \<and> notifications (set_icon t i) = notifications t + 1) \<and>
   set_caption t (caption t) = t \<and>
   (c \<noteq> caption t \<longrightarrow>
      caption (set_caption t c) = c \<and> notifications (set_caption t c) = notifications t + 1) \<and>
   set_className t (className t) = t \<and>
   (n \<noteq> className t \<longrightarrow>
      className (set_className t n) = n \<and>
      notifications (set_className t n) = notifications t + 1) \<and>
   set_closable t (closable t) = t \<and>
   (b \<noteq> closable t \<longrightarrow>
      closable (set_closable t b) = b \<and> notifications (set_closable t b) = notifications t + 1)"
proof -
  have 1: "set_label t (label t) = t"
    "set_icon t (icon t) = t" "set_caption t (caption t) = t"
    "set_className t (className t) = t" "set_closable t (closable t) = t"
    by (simp_all add: set_label_def set_icon_def set_caption_def
        set_className_def set_closable_def)
  have 2: "label (set_label t l) = l \<and> notifications (set_label t l) = notifications t + 1"
    if "l \<noteq> label t"
    using that by (auto simp: set_label_def notifications_def emit_def)
  have 3: "set_mnemonic t m = t" if "strict_eq (mnemonic t) m" for m
    using that by (simp add: set_mnemonic_def)
  have 4: "mnemonic (set_mnemonic t m) = m \<and>
      notifications (set_mnemonic t m) = notifications t + 1" if "\<not> strict_eq (mnemonic t) m"
    using that by (simp add: set_mnemonic_def notifications_def emit_def)
  have 5: "set_mnemonic t (mnemonic t) = t" if "mnemonic t \<noteq> NaN"
    using that by (simp add: 3 strict_eq_same)
  have 6: "mnemonic (set_mnemonic t m) = m \<and>
      notifications (set_mnemonic t m) = notifications t + 1"
    if "m \<noteq> mnemonic t \<and> \<not> (m = Num 0 \<and> mnemonic t = NegZero) \<and>
      \<not> (m = NegZero \<and> mnemonic t = Num 0)"
  proof -
    from that have "mnemonic t \<noteq> m"
      by blast
    then have "\<not> strict_eq (mnemonic t) m"
      using that by (auto simp: strict_eq_other)
    then show ?thesis
      by (rule 4)
  qed
  have 7: "icon (set_icon t i) = i \<and> notifications (set_icon t i) = notifications t + 1"
    if "i \<noteq> icon t"
    using that by (auto simp: set_icon_def notifications_def emit_def)
  have 8: "caption (set_caption t c) = c \<and>
      notifications (set_caption t c) = notifications t + 1" if "c \<noteq> caption t"
    using that by (auto simp: set_caption_def notifications_def emit_def)
  have 9: "className (set_className t n) = n \<and>
      notifications (set_className t n) = notifications t + 1" if "n \<noteq> className t"
    using that by (auto simp: set_className_def notifications_def emit_def)
  have 10: "closable (set_closable t b) = b \<and>
      notifications (set_closable t b) = notifications t + 1" if "b \<noteq> closable t"
    using that by (auto simp: set_closable_def notifications_def emit_def)
  from 1 2 3 4 5 6 7 8 9 10 show ?thesis
    by blast
qed

theorem setter_notifies_witness:
  "set_label title0 ''tab'' = title0 \<and>
   label (set_label title0 ''new'') = ''new'' \<and> notifications (set_label title0 ''new'') = 1 \<and>
   mnemonic title0 = Num (- 1) \<and> strict_eq (mnemonic title0) (Num (- 1)) \<and>
   set_mnemonic title0 (Num (- 1)) = title0 \<and>
   \<not> strict_eq (mnemonic title0) (Num 2) \<and>
   mnemonic (set_mnemonic title0 (Num 2)) = Num 2 \<and>
   notifications (set_mnemonic title0 (Num 2)) = 1 \<and>
   set_icon title0 '''' = title0 \<and>
   icon (set_icon title0 ''fa'') = ''fa'' \<and> notifications (set_icon title0 ''fa'') = 1 \<and>
   set_caption title0 ''a tab'' = title0 \<and>
   caption (set_caption title0 '''') = '''' \<and> notifications (set_caption title0 '''') = 1 \<and>
   set_className title0 '''' = title0 \<and>
   className (set_className title0 ''x'') = ''x'' \<and>
   notifications (set_className title0 ''x'') = 1 \<and>
   set_closable title0 True = title0 \<and>
   closable (set_closable title0 False) = False \<and>
   notifications (set_closable title0 False) = 1"
proof -
  have fields: "label title0 = ''tab''" "mnemonic title0 = Num (- 1)" "icon title0 = ''''"
    "caption title0 = ''a tab''" "className title0 = ''''" "closable title0 = True"
    "notifications title0 = 0"
    by (simp_all add: title0_def options0_def Title_new_def notifications_def Signal_new_def)
  show ?thesis
    using setter_notifies [of title0 "''new''" "Num (- 1)" "''fa''" "''''" "''x''" False]
      setter_notifies [of title0 "''new''" "Num 2" "''fa''" "''''" "''x''" False] fields
    by simp
qed

text \<open>
  Claim C1 as stated fails at a title whose mnemonic is NaN: assigning the current
  value of the field changes the state and emits a notification.
\<close>

theorem set_mnemonic_NaN:
  "mnemonic title_NaN = NaN \<and>
   set_mnemonic title_NaN (mnemonic title_NaN) \<noteq> title_NaN \<and>
   notifications (set_mnemonic title_NaN (mnemonic title_NaN)) = notifications title_NaN + 1"
proof -
  have m: "mnemonic title_NaN = NaN"
    by (simp add: title_NaN_def options0_def Title_new_def)
  have n: "notifications (set_mnemonic title_NaN NaN) = notifications title_NaN + 1"
    by (simp add: set_mnemonic_def m notifications_def emit_def)
  then have "set_mnemonic title_NaN NaN \<noteq> title_NaN"
    by auto
  with m n show ?thesis
    by simp
qed

subsection \<open>The dataset operations\<close>

text \<open>
  Claim C5. Reading a key that the dataset does not hold gives the empty string; after
  \<^verbatim>\<open>setData(key, value)\<close> the key reads back \<open>value\<close>, for every string; and
  \<^verbatim>\<open>setData(key, '')\<close> leaves the key out of the dataset of a title, whose dataset
  never stores an empty string.
\<close>

theorem getData_setData:
  "(dataset t key = None \<longrightarrow> getData t key = '''') \<and>
   getData (setData t key v) key = v \<and>
   (dataset_inv t \<longrightarrow> dataset (setData t key '''') key = None)"
proof (intro conjI impI)
  show "getData t key = ''''" if "dataset t key = None"
    using that by (simp add: getData_def)
  show "getData (setData t key v) key = v"
    by (simp add: setData_def Let_def) (simp add: getData_def truthy_def)
  show "dataset (setData t key '''') key = None" if "dataset_inv t"
  proof (cases "dataset t key")
    case None
    then show ?thesis
      by (simp add: setData_def Let_def truthy_def)
  next
    case (Some w)
    with that have "w \<noteq> ''''"
      by (auto simp: dataset_inv_def ran_def)
    with Some show ?thesis
      by (simp add: setData_def Let_def truthy_def getData_def)
  qed
qed

theorem getData_setData_witness:
  "dataset title0 ''c'' = None \<and> getData title0 ''c'' = '''' \<and>
   getData (setData title0 ''a'' ''y'') ''a'' = ''y'' \<and>
   dataset_inv title0 \<and> dataset (setData title0 ''a'' '''') ''a'' = None"
proof -
  have absent: "dataset title0 ''c'' = None"
    by (simp add: title0_def options0_def Title_new_def truthy_def)
  have inv: "dataset_inv title0"
    unfolding title0_def by (rule dataset_inv_Title_new)
  show ?thesis
    using getData_setData [of title0 "''c''" "''y''"]
      getData_setData [of title0 "''a''" "''y''"] absent inv
    by simp
qed

text \<open>
  Claim C2. For every title and every mapping passed to \<^verbatim>\<open>updateData\<close>: afterwards every
  key of the mapping reads back the value of the mapping and every other key reads as
  before; and, with N the number of entries whose value differs from what the key read
  before the call (an absent key reads as the empty string), exactly one notification is
  emitted if N > 0 and none if N = 0.
\<close>

theorem updateData_coalesces:
  assumes "distinct (map fst vals)"
  shows "(\<forall>(key, v) \<in> set vals. getData (updateData t vals) key = v) \<and>
    (\<forall>key. key \<notin> fst ` set vals \<longrightarrow> getData (updateData t vals) key = getData t key) \<and>
    notifications (updateData t vals) =
      notifications t +
      (if 0 < length (filter (\<lambda>(key, v). v \<noteq> getData t key) vals) then 1 else 0)"
proof -
  have applied: "getData (updateData t vals) key = v" if "(key, v) \<in> set vals" for key v
  proof -
    from that assms have "map_of vals key = Some v"
      by simp
    then show ?thesis
      by (simp add: getData_updateData updateData_loop_getData [OF assms])
  qed
  have others: "getData (updateData t vals) key = getData t key"
    if "key \<notin> fst ` set vals" for key
  proof -
    from that have "map_of vals key = None"
      by (simp add: map_of_eq_None_iff)
    then show ?thesis
      by (simp add: getData_updateData updateData_loop_getData [OF assms])
  qed
  have "(0 < length (filter (\<lambda>(key, v). v \<noteq> getData t key) vals)) =
      (\<exists>e \<in> set vals. snd e \<noteq> getData t (fst e))"
    by (simp add: filter_empty_conv split_beta)
  then have count: "notifications (updateData t vals) =
      notifications t +
      (if 0 < length (filter (\<lambda>(key, v). v \<noteq> getData t key) vals) then 1 else 0)"
    by (simp add: notifications_updateData updateData_loop_flag)
  from applied others count show ?thesis
    by blast
qed

theorem updateData_coalesces_witness:
  "distinct (map fst [(''a'', ''x''), (''b'', ''y''), (''c'', '''')]) \<and>
   getData (updateData title0 [(''a'', ''x''), (''b'', ''y''), (''c'', '''')]) ''a'' = ''x'' \<and>
   getData (updateData title0 [(''a'', ''x''), (''b'', ''y''), (''c'', '''')]) ''b'' = ''y'' \<and>
   getData (updateData title0 [(''a'', ''x''), (''b'', ''y''), (''c'', '''')]) ''c'' = '''' \<and>
   getData title0 ''a'' = ''x'' \<and> getData title0 ''b'' = '''' \<and> getData title0 ''c'' = '''' \<and>
   ''d'' \<notin> fst ` set [(''a'', ''x''), (''b'', ''y''), (''c'', '''')] \<and>
   getData (updateData title0 [(''a'', ''x''), (''b'', ''y''), (''c'', '''')]) ''d'' =
     getData title0 ''d'' \<and>
   length (filter (\<lambda>(key, v). v \<noteq> getData title0 key)
     [(''a'', ''x''), (''b'', ''y''), (''c'', '''')]) = 1 \<and>
   notifications (updateData title0 [(''a'', ''x''), (''b'', ''y''), (''c'', '''')]) =
     notifications title0 + 1 \<and>
   distinct (map fst [(''a'', ''x'')]) \<and>
   length (filter (\<lambda>(key, v). v \<noteq> getData title0 key) [(''a'', ''x'')]) = 0 \<and>
   notifications (updateData title0 [(''a'', ''x'')]) = notifications title0"
proof -
  have d: "distinct (map fst [(''a'', ''x''), (''b'', ''y''), (''c'', '''')])"
    and d1: "distinct (map fst [(''a'', ''x'')])"
    by simp_all
  have reads: "getData title0 ''a'' = ''x''" "getData title0 ''b'' = ''''"
    "getData title0 ''c'' = ''''"
    by (simp_all add: title0_def options0_def Title_new_def getData_def truthy_def)
  show ?thesis
    using updateData_coalesces [OF d, of title0] updateData_coalesces [OF d1, of title0] reads
    by simp
qed

text \<open>
  Claim C9. \<^verbatim>\<open>updateData\<close> with the single entry \<open>key: v\<close> and \<^verbatim>\<open>setData(key, v)\<close> end in
  the same state: the same dataset, the same fields and the same notifications.
\<close>

theorem updateData_single_is_setData:
  "updateData t [(key, v)] = setData t key v"
  by (simp add: updateData_def setData_def Let_def)

subsection \<open>Construction\<close>

text \<open>
  Claim C10. A newly constructed title has emitted no notification, whatever the options
  are; an entry of the initial dataset whose value is the empty string is not stored, and
  reads back as the empty string, as a key that the initial dataset does not have does.
\<close>

theorem Title_new_silent:
  "notifications (Title_new this options) = 0 \<and>
   (opt_dataset options = Some ds \<and> distinct (map fst ds) \<and> (key, '''') \<in> set ds \<longrightarrow>
      dataset (Title_new this options) key = None \<and>
      getData (Title_new this options) key = '''') \<and>
   (opt_dataset options = Some ds \<and> key \<notin> fst ` set ds \<longrightarrow>
      getData (Title_new this options) key = '''')"
proof -
  have silent: "notifications (Title_new this options) = 0"
    by (simp add: notifications_def Title_new_def Signal_new_def)
  have dropped: "dataset (Title_new this options) key = None \<and>
      getData (Title_new this options) key = ''''"
    if a: "opt_dataset options = Some ds \<and> distinct (map fst ds) \<and> (key, '''') \<in> set ds"
  proof -
    from a have m: "map_of ds key = Some ''''"
      by simp
    have "init_dataset ds Map.empty key = None"
      using a by (subst init_dataset_lookup) (simp_all add: m truthy_def)
    with a have "dataset (Title_new this options) key = None"
      by (simp add: Title_new_def)
    then show ?thesis
      by (simp add: getData_def)
  qed
  have absent: "getData (Title_new this options) key = ''''"
    if a: "opt_dataset options = Some ds \<and> key \<notin> fst ` set ds"
  proof -
    from a have "init_dataset ds Map.empty key = None"
      by (simp add: init_dataset_other)
    with a show ?thesis
      by (simp add: Title_new_def getData_def)
  qed
  from silent dropped absent show ?thesis
    by blast
qed

theorem Title_new_silent_witness:
  "notifications title0 = 0 \<and>
   opt_dataset options0 = Some [(''a'', ''x''), (''b'', '''')] \<and>
   distinct (map fst [(''a'', ''x''), (''b'', '''')]) \<and>
   (''b'', '''') \<in> set [(''a'', ''x''), (''b'', '''')] \<and>
   dataset title0 ''b'' = None \<and> getData title0 ''b'' = '''' \<and>
   ''c'' \<notin> fst ` set [(''a'', ''x''), (''b'', '''')] \<and> getData title0 ''c'' = ''''"
proof -
  have o: "opt_dataset options0 = Some [(''a'', ''x''), (''b'', '''')]"
    by (simp add: options0_def)
  show ?thesis
    using Title_new_silent [of 0 options0 "[(''a'', ''x''), (''b'', '''')]" "''b''"]
      Title_new_silent [of 0 options0 "[(''a'', ''x''), (''b'', '''')]" "''c''"] o
    by (simp add: title0_def)
qed

subsection \<open>What an operation leaves alone\<close>

lemma setData_frame:
  "setData t key v = t\<lparr>dataset := dataset (setData t key v), changed := changed (setData t key v)\<rparr>"
  by (simp add: setData_def Let_def)

lemma updateData_frame:
  "updateData t vals =
     t\<lparr>dataset := dataset (updateData t vals), changed := changed (updateData t vals)\<rparr>"
proof -
  obtain d where d: "fst (updateData_loop vals t False) = t\<lparr>dataset := d\<rparr>"
    using updateData_loop_frame_ex by blast
  show ?thesis
    by (simp add: updateData_alt d)
qed

lemma owner_apply_op: "owner (apply_op t op) = owner t"
proof (cases op)
  case (SetData key v)
  have "owner (setData t key v) = owner t"
    by (subst setData_frame) simp
  then show ?thesis by (simp add: SetData)
next
  case (UpdateData vals)
  have "owner (updateData t vals) = owner t"
    by (subst updateData_frame) simp
  then show ?thesis by (simp add: UpdateData)
qed (simp_all add: set_label_def set_mnemonic_def set_icon_def set_caption_def
       set_className_def set_closable_def)

lemma owner_foldl_apply_op: "owner (foldl apply_op t ops) = owner t"
  by (induction ops arbitrary: t) (simp_all add: owner_apply_op)

text \<open>
  Claim C8. Every operation of a title changes at most the field it addresses (for
  \<^verbatim>\<open>setData\<close> and \<^verbatim>\<open>updateData\<close>, the dataset entries of the keys it is given) and the
  notifications of the \<^verbatim>\<open>changed\<close> signal; every other field keeps its value. The owner
  is the same after any sequence of operations: it is the owner that the options of the
  constructor gave.
\<close>

theorem Title_frame:
  "set_label t l = t\<lparr>label := label (set_label t l), changed := changed (set_label t l)\<rparr> \<and>
   set_mnemonic t m =
     t\<lparr>mnemonic := mnemonic (set_mnemonic t m), changed := changed (set_mnemonic t m)\<rparr> \<and>
   set_icon t i = t\<lparr>icon := icon (set_icon t i), changed := changed (set_icon t i)\<rparr> \<and>
   set_caption t c =
     t\<lparr>caption := caption (set_caption t c), changed := changed (set_caption t c)\<rparr> \<and>
   set_className t n =
     t\<lparr>className := className (set_className t n), changed := changed (set_className t n)\<rparr> \<and>
   set_closable t b =
     t\<lparr>closable := closable (set_closable t b), changed := changed (set_closable t b)\<rparr> \<and>
   setData t key v =
     t\<lparr>dataset := dataset (setData t key v), changed := changed (setData t key v)\<rparr> \<and>
   (\<forall>k. k \<noteq> key \<longrightarrow> dataset (setData t key v) k = dataset t k) \<and>
   updateData t vals =
     t\<lparr>dataset := dataset (updateData t vals), changed := changed (updateData t vals)\<rparr> \<and>
   (\<forall>k. k \<notin> fst ` set vals \<longrightarrow> dataset (updateData t vals) k = dataset t k) \<and>
   owner (foldl apply_op t ops) = owner t \<and>
   owner (foldl apply_op (Title_new this options) ops) = opt_owner options"
proof -
  have setters:
    "set_label t l = t\<lparr>label := label (set_label t l), changed := changed (set_label t l)\<rparr>"
    "set_mnemonic t m =
       t\<lparr>mnemonic := mnemonic (set_mnemonic t m), changed := changed (set_mnemonic t m)\<rparr>"
    "set_icon t i = t\<lparr>icon := icon (set_icon t i), changed := changed (set_icon t i)\<rparr>"
    "set_caption t c =
       t\<lparr>caption := caption (set_caption t c), changed := changed (set_caption t c)\<rparr>"
    "set_className t n =
       t\<lparr>className := className (set_className t n), changed := changed (set_className t n)\<rparr>"
    "set_closable t b =
       t\<lparr>closable := closable (set_closable t b), changed := changed (set_closable t b)\<rparr>"
    by (simp_all add: set_label_def set_mnemonic_def set_icon_def set_caption_def
        set_className_def set_closable_def)
  have set_other: "\<forall>k. k \<noteq> key \<longrightarrow> dataset (setData t key v) k = dataset t k"
    by (simp add: setData_def Let_def)
  have upd_other:
    "\<forall>k. k \<notin> fst ` set vals \<longrightarrow> dataset (updateData t vals) k = dataset t k"
    by (simp add: updateData_alt updateData_loop_dataset_other)
  have constructed: "owner (foldl apply_op (Title_new this options) ops) = opt_owner options"
    by (simp add: owner_foldl_apply_op Title_new_def)
  show ?thesis
    by (intro conjI setters setData_frame set_other updateData_frame upd_other
        owner_foldl_apply_op constructed)
qed

theorem Title_frame_witness:
  "set_label title0 ''new'' =
     title0\<lparr>label := label (set_label title0 ''new''),
       changed := changed (set_label title0 ''new'')\<rparr> \<and>
   ''b'' \<noteq> ''a'' \<and> dataset (setData title0 ''a'' ''z'') ''b'' = dataset title0 ''b'' \<and>
   ''c'' \<notin> fst ` set [(''a'', ''z''), (''b'', ''y'')] \<and>
   dataset (updateData title0 [(''a'', ''z''), (''b'', ''y'')]) ''c'' = dataset title0 ''c'' \<and>
   closable (updateData title0 [(''a'', ''z''), (''b'', ''y'')]) = closable title0 \<and>
   owner (foldl apply_op title0
     [SetLabel ''new'', SetClosable False, SetData ''a'' '''', UpdateData [(''b'', ''y'')]]) = 7"
proof -
  note frame = Title_frame [of title0 "''new''" "Num 0" "''''" "''''" "''''" False "''a''" "''z''"
      "[(''a'', ''z''), (''b'', ''y'')]"
      "[SetLabel ''new'', SetClosable False, SetData ''a'' '''', UpdateData [(''b'', ''y'')]]"]
  note rest6 = frame [THEN conjunct2, THEN conjunct2, THEN conjunct2, THEN conjunct2,
      THEN conjunct2, THEN conjunct2]
  note c1 = frame [THEN conjunct1]
  note set_other = rest6 [THEN conjunct2, THEN conjunct1]
  note upd_frame = rest6 [THEN conjunct2, THEN conjunct2, THEN conjunct1]
  note upd_other = rest6 [THEN conjunct2, THEN conjunct2, THEN conjunct2, THEN conjunct1]
  note owner_same =
    rest6 [THEN conjunct2, THEN conjunct2, THEN conjunct2, THEN conjunct2, THEN conjunct1]
  have c2: "''b'' \<noteq> ''a''"
    by simp
  have c3: "dataset (setData title0 ''a'' ''z'') ''b'' = dataset title0 ''b''"
    by (rule set_other [rule_format, OF c2])
  have c4: "''c'' \<notin> fst ` set [(''a'', ''z''), (''b'', ''y'')]"
    by simp
  have c5:
    "dataset (updateData title0 [(''a'', ''z''), (''b'', ''y'')]) ''c'' = dataset title0 ''c''"
    by (rule upd_other [rule_format, OF c4])
  have "closable (updateData title0 [(''a'', ''z''), (''b'', ''y'')]) =
      closable (title0\<lparr>dataset := dataset (updateData title0 [(''a'', ''z''), (''b'', ''y'')]),
        changed := changed (updateData title0 [(''a'', ''z''), (''b'', ''y'')])\<rparr>)"
    by (rule arg_cong [OF upd_frame])
  then have c6: "closable (updateData title0 [(''a'', ''z''), (''b'', ''y'')]) = closable title0"
    by simp
  have "owner title0 = 7"
    by (simp add: title0_def options0_def Title_new_def)
  with owner_same have c7: "owner (foldl apply_op title0
     [SetLabel ''new'', SetClosable False, SetData ''a'' '''', UpdateData [(''b'', ''y'')]]) = 7"
    by (rule trans)
  show ?thesis
    by (intro conjI c1 c2 c3 c4 c5 c6 c7)
qed

section \<open>Properties of the change events and DataModel\<close>

subsection \<open>The five variants\<close>

lemma has_type_tagged:
  "obj ''type'' = Some (JString s) \<Longrightarrow> has_type obj literals = (s \<in> set literals)"
  by (simp add: has_type_def)

lemma has_type_obtains:
  assumes "has_type obj literals"
  obtains s where "obj ''type'' = Some (JString s)" and "s \<in> set literals"
  using assms by (auto simp: has_type_def split: option.splits jsval.splits)

lemma is_ChangedArgs_tag:
  assumes "is_ChangedArgs obj"
  obtains s where "obj ''type'' = Some (JString s)"
  using assms
  unfolding is_ChangedArgs_def ISectionsInsertedArgs_def ISectionsRemovedArgs_def
    ISectionsMovedArgs_def ICellsChangedArgs_def IModelChangedArgs_def
  by (blast elim: has_type_obtains)

lemma args_object_tag: "args_object a ''type'' = Some (JString (type_tag a))"
  by (cases a) simp_all

lemma is_ChangedArgs_args_object: "is_ChangedArgs (args_object a)"
  unfolding is_ChangedArgs_def ISectionsInsertedArgs_def ISectionsRemovedArgs_def
    ISectionsMovedArgs_def ICellsChangedArgs_def IModelChangedArgs_def
  by (cases a rule: type_tag.cases) (simp_all add: has_type_def has_number_def)

text \<open>
  Claim C6, as the code has it. Every value of the type \<^verbatim>\<open>ChangedArgs\<close> has exactly one
  of the five interfaces, and its type tag alone decides which: one of the two literals
  of sections-inserted, of sections-removed or of sections-moved, \<^verbatim>\<open>cells-changed\<close> or
  \<^verbatim>\<open>model-changed\<close>. It carries at least the numeric fields of that interface: index and
  span; index and span; fromIndex, toIndex and span; rowIndex, colIndex, rowSpan and
  colSpan; none. The interfaces are open, so nothing bounds what else it carries.
\<close>

theorem ChangedArgs_one_interface:
  assumes "is_ChangedArgs obj"
  shows "length (filter (\<lambda>I. I obj)
      [ISectionsInsertedArgs, ISectionsRemovedArgs, ISectionsMovedArgs, ICellsChangedArgs,
       IModelChangedArgs]) = 1 \<and>
    ISectionsInsertedArgs obj = has_type obj [''rows-inserted'', ''cols-inserted''] \<and>
    ISectionsRemovedArgs obj = has_type obj [''rows-removed'', ''cols-removed''] \<and>
    ISectionsMovedArgs obj = has_type obj [''rows-moved'', ''cols-moved''] \<and>
    ICellsChangedArgs obj = has_type obj [''cells-changed''] \<and>
    IModelChangedArgs obj = has_type obj [''model-changed''] \<and>
    (ISectionsInsertedArgs obj \<longrightarrow> has_number obj ''index'' \<and> has_number obj ''span'') \<and>
    (ISectionsRemovedArgs obj \<longrightarrow> has_number obj ''index'' \<and> has_number obj ''span'') \<and>
    (ISectionsMovedArgs obj \<longrightarrow>
       has_number obj ''fromIndex'' \<and> has_number obj ''toIndex'' \<and> has_number obj ''span'') \<and>
    (ICellsChangedArgs obj \<longrightarrow>
       has_number obj ''rowIndex'' \<and> has_number obj ''colIndex'' \<and>
       has_number obj ''rowSpan'' \<and> has_number obj ''colSpan'')"
proof -
  obtain s where s: "obj ''type'' = Some (JString s)"
    using assms by (rule is_ChangedArgs_tag)
  note tag = has_type_tagged [of obj s, OF s]
  note defs = ISectionsInsertedArgs_def ISectionsRemovedArgs_def ISectionsMovedArgs_def
    ICellsChangedArgs_def IModelChangedArgs_def
  from assms have some: "ISectionsInsertedArgs obj \<or> ISectionsRemovedArgs obj \<or>
      ISectionsMovedArgs obj \<or> ICellsChangedArgs obj \<or> IModelChangedArgs obj"
    by (simp add: is_ChangedArgs_def)
  have ins: "ISectionsInsertedArgs obj = has_type obj [''rows-inserted'', ''cols-inserted'']"
    using some unfolding defs tag by auto
  have rem: "ISectionsRemovedArgs obj = has_type obj [''rows-removed'', ''cols-removed'']"
    using some unfolding defs tag by auto
  have mov: "ISectionsMovedArgs obj = has_type obj [''rows-moved'', ''cols-moved'']"
    using some unfolding defs tag by auto
  have cel: "ICellsChangedArgs obj = has_type obj [''cells-changed'']"
    using some unfolding defs tag by auto
  have mdl: "IModelChangedArgs obj = has_type obj [''model-changed'']"
    by (simp add: IModelChangedArgs_def)
  have one: "length (filter (\<lambda>I. I obj)
      [ISectionsInsertedArgs, ISectionsRemovedArgs, ISectionsMovedArgs, ICellsChangedArgs,
       IModelChangedArgs]) = 1"
  proof -
    have by_tag: "ISectionsInsertedArgs obj = (s = ''rows-inserted'' \<or> s = ''cols-inserted'')"
      "ISectionsRemovedArgs obj = (s = ''rows-removed'' \<or> s = ''cols-removed'')"
      "ISectionsMovedArgs obj = (s = ''rows-moved'' \<or> s = ''cols-moved'')"
      "ICellsChangedArgs obj = (s = ''cells-changed'')"
      "IModelChangedArgs obj = (s = ''model-changed'')"
      by (simp_all add: ins rem mov cel mdl tag)
    from some have "s = ''rows-inserted'' \<or> s = ''cols-inserted'' \<or> s = ''rows-removed'' \<or>
        s = ''cols-removed'' \<or> s = ''rows-moved'' \<or> s = ''cols-moved'' \<or>
        s = ''cells-changed'' \<or> s = ''model-changed''"
      by (simp add: by_tag)
    then show ?thesis
      unfolding filter.simps by_tag by (elim disjE) simp_all
  qed
  have fields:
    "ISectionsInsertedArgs obj \<longrightarrow> has_number obj ''index'' \<and> has_number obj ''span''"
    "ISectionsRemovedArgs obj \<longrightarrow> has_number obj ''index'' \<and> has_number obj ''span''"
    "ISectionsMovedArgs obj \<longrightarrow>
       has_number obj ''fromIndex'' \<and> has_number obj ''toIndex'' \<and> has_number obj ''span''"
    "ICellsChangedArgs obj \<longrightarrow>
       has_number obj ''rowIndex'' \<and> has_number obj ''colIndex'' \<and>
       has_number obj ''rowSpan'' \<and> has_number obj ''colSpan''"
    by (simp_all add: defs)
  show ?thesis
    by (intro conjI one ins rem mov cel mdl fields)
qed

theorem ChangedArgs_one_interface_witness:
  "is_ChangedArgs (args_object (SectionsMoved Rows 0 3 2)) \<and>
   length (filter (\<lambda>I. I (args_object (SectionsMoved Rows 0 3 2)))
      [ISectionsInsertedArgs, ISectionsRemovedArgs, ISectionsMovedArgs, ICellsChangedArgs,
       IModelChangedArgs]) = 1 \<and>
   ISectionsMovedArgs (args_object (SectionsMoved Rows 0 3 2)) \<and>
   has_number (args_object (SectionsMoved Rows 0 3 2)) ''fromIndex'' \<and>
   has_number (args_object (SectionsMoved Rows 0 3 2)) ''toIndex'' \<and>
   has_number (args_object (SectionsMoved Rows 0 3 2)) ''span''"
proof -
  let ?obj = "args_object (SectionsMoved Rows 0 3 2)"
  have a: "is_ChangedArgs ?obj"
    by (rule is_ChangedArgs_args_object)
  have t: "has_type ?obj [''rows-moved'', ''cols-moved'']"
    by (simp add: has_type_def)
  note all = ChangedArgs_one_interface [OF a]
  note one = all [THEN conjunct1]
  note moved = all [THEN conjunct2, THEN conjunct2, THEN conjunct2, THEN conjunct1]
  note rest6 = all [THEN conjunct2, THEN conjunct2, THEN conjunct2, THEN conjunct2,
      THEN conjunct2, THEN conjunct2]
  note moved_fields = rest6 [THEN conjunct2, THEN conjunct2, THEN conjunct1]
  have m: "ISectionsMovedArgs ?obj"
    using moved t by (rule iffD2)
  have f: "has_number ?obj ''fromIndex'' \<and> has_number ?obj ''toIndex'' \<and>
      has_number ?obj ''span''"
    using moved_fields m by (rule mp)
  show ?thesis
    by (intro conjI a one m f [THEN conjunct1] f [THEN conjunct2, THEN conjunct1]
        f [THEN conjunct2, THEN conjunct2])
qed

text \<open>
  Claim C6 as stated fails: an object whose type tag is \<^verbatim>\<open>model-changed\<close> and which
  carries a span has the interface of model-changed, so it is a value of the type.
\<close>

theorem model_changed_with_span:
  "is_ChangedArgs args_extra \<and> IModelChangedArgs args_extra \<and>
   args_extra ''span'' = Some (JNumber (Num 0)) \<and> args_extra \<noteq> args_object ModelChanged"
proof -
  have m: "IModelChangedArgs args_extra"
    by (simp add: IModelChangedArgs_def has_type_def args_extra_def)
  have s: "args_extra ''span'' = Some (JNumber (Num 0))"
    by (simp add: args_extra_def)
  have "args_object ModelChanged ''span'' = None"
    by simp
  with s have "args_extra \<noteq> args_object ModelChanged"
    by (metis option.distinct(1))
  with m s show ?thesis
    by (simp add: is_ChangedArgs_def)
qed

subsection \<open>Emission\<close>

lemma is_DataModel_new: "is_DataModel (DataModel_new this sg st) this"
  by (simp add: is_DataModel_def DataModel_new_def Signal_new_def)

lemma is_DataModel_emitChanged:
  "is_DataModel st this \<Longrightarrow> is_DataModel (emitChanged that args st) this"
  by (auto simp: is_DataModel_def emitChanged_def Let_def emit_def)

lemma delivered_new: "delivered (DataModel_new this sg st) this = []"
  by (simp add: delivered_def DataModel_changed_def DataModel_new_def Signal_new_def)

lemma delivered_emitChanged:
  "delivered (emitChanged this args st) this =
     delivered st this @ [(sender (signals st (DataModel_changed st this)), args)]"
  by (simp add: delivered_def DataModel_changed_def emitChanged_def Let_def emit_def)

lemma DataModel_changed_fold:
  "DataModel_changed (fold (\<lambda>(that, args). emitChanged that args) calls st) this =
     DataModel_changed st this"
  by (induction calls arbitrary: st)
    (simp_all add: DataModel_changed_def emitChanged_def Let_def split: prod.split)

text \<open>
  Claim C7. For every model and every args value, \<^verbatim>\<open>emitChanged(args)\<close> adds exactly one
  emission to the signal that the \<^verbatim>\<open>changed\<close> getter returns, with the model as sender
  and the args as they were passed, and it is there when the call returns. The getter
  returns the same signal after the call, and after any sequence of such calls on any
  models of the store.
\<close>

theorem emitChanged_emits_once:
  assumes "is_DataModel st this"
  shows "delivered (emitChanged this args st) this = delivered st this @ [(this, args)] \<and>
    DataModel_changed (emitChanged this args st) this = DataModel_changed st this \<and>
    DataModel_changed (fold (\<lambda>(that, args). emitChanged that args) calls st) this =
      DataModel_changed st this \<and>
    is_DataModel (emitChanged this args st) this"
proof -
  from assms have "sender (signals st (DataModel_changed st this)) = this"
    by (simp add: is_DataModel_def DataModel_changed_def)
  then have "delivered (emitChanged this args st) this = delivered st this @ [(this, args)]"
    by (simp add: delivered_emitChanged)
  moreover have "DataModel_changed (emitChanged this args st) this = DataModel_changed st this"
    by (simp add: DataModel_changed_def emitChanged_def Let_def)
  ultimately show ?thesis
    using DataModel_changed_fold [of calls st this] is_DataModel_emitChanged [OF assms]
    by simp
qed

theorem emitChanged_emits_once_witness:
  "is_DataModel store0 1 \<and>
   delivered (emitChanged 1 (CellsChanged 0 0 2 3) store0) 1 = [(1, CellsChanged 0 0 2 3)] \<and>
   DataModel_changed (emitChanged 1 (CellsChanged 0 0 2 3) store0) 1 = 2 \<and>
   DataModel_changed (fold (\<lambda>(that, args). emitChanged that args)
     [(1, ModelChanged), (1, SectionsMoved Rows 0 3 2)] store0) 1 = 2"
proof -
  have m: "is_DataModel store0 1"
    unfolding store0_def by (rule is_DataModel_new)
  have d: "delivered store0 1 = []"
    unfolding store0_def by (rule delivered_new)
  have g: "DataModel_changed store0 1 = 2"
    by (simp add: store0_def DataModel_changed_def DataModel_new_def)
  show ?thesis
    using emitChanged_emits_once [OF m, of "CellsChanged 0 0 2 3"
        "[(1, ModelChanged), (1, SectionsMoved Rows 0 3 2)]"] m d g
    by simp
qed

subsection \<open>Spans\<close>

text \<open>
  Claim C4, as the code has it. \<^verbatim>\<open>emitChanged\<close> delivers the args it is given and checks
  nothing: after the call, every event delivered by the model meets the bound on spans
  exactly when the args passed meet it and every event delivered before did. That no
  event with a span below one is emitted is thus the caller's obligation.
\<close>

theorem emitChanged_keeps_spans:
  assumes "is_DataModel st this"
  shows "(\<forall>e \<in> set (delivered (emitChanged this args st) this). spans_ok (snd e)) =
    (spans_ok args \<and> (\<forall>e \<in> set (delivered st this). spans_ok (snd e)))"
  by (auto simp: delivered_emitChanged)

theorem emitChanged_keeps_spans_witness:
  "is_DataModel store0 1 \<and> spans_ok (SectionsInserted Rows 2 3) \<and>
   list_all (\<lambda>e. spans_ok (snd e)) (delivered store0 1) \<and>
   list_all (\<lambda>e. spans_ok (snd e))
     (delivered (emitChanged 1 (SectionsInserted Rows 2 3) store0) 1)"
proof -
  have m: "is_DataModel store0 1"
    unfolding store0_def by (rule is_DataModel_new)
  have d: "delivered store0 1 = []"
    unfolding store0_def by (rule delivered_new)
  show ?thesis
    using emitChanged_keeps_spans [OF m, of "SectionsInserted Rows 2 3"] m d
    by (simp add: list_all_iff)
qed

text \<open>
  Claim C4 as stated fails: a model whose \<^verbatim>\<open>emitChanged\<close> is handed an insertion of
  zero rows delivers that event to its observers.
\<close>

theorem emitChanged_zero_span:
  "delivered (emitChanged 1 (SectionsInserted Rows 0 0) store0) 1 =
     [(1, SectionsInserted Rows 0 0)] \<and>
   \<not> spans_ok (SectionsInserted Rows 0 0)"
proof -
  have "is_DataModel store0 1"
    unfolding store0_def by (rule is_DataModel_new)
  then have "sender (signals store0 (DataModel_changed store0 1)) = 1"
    by (simp add: is_DataModel_def DataModel_changed_def)
  moreover have "delivered store0 1 = []"
    unfolding store0_def by (rule delivered_new)
  ultimately show ?thesis
    by (simp add: delivered_emitChanged)
qed

section \<open>Properties of the cell addressing rule\<close>

text \<open>
  Claim C3. The addressing rule assigns to every pair of integers exactly one of the
  four categories, so it is a total function, the one that \<open>categories\<close> computes; and
  every pair of negative coordinates, whatever their size, denotes the corner.
\<close>

theorem cell_addressing_total:
  "(\<exists>!c. denotes row col c) \<and>
   (\<exists>c. categories row col = [c] \<and> denotes row col c) \<and>
   (row < 0 \<and> col < 0 \<longrightarrow> denotes row col corner \<and> categories row col = [corner])"
proof -
  have one: "\<exists>!c. denotes row col c"
  proof -
    have ex: "\<exists>c. denotes row col c"
    proof (cases "0 \<le> row")
      case True
      then have "denotes row col body \<or> denotes row col row_header"
        by auto
      then show ?thesis by blast
    next
      case False
      then have "denotes row col column_header \<or> denotes row col corner"
        by auto
      then show ?thesis by blast
    qed
    have uniq: "c = c'" if "denotes row col c" "denotes row col c'" for c c'
      using that by (cases c; cases c'; simp)
    from ex uniq show ?thesis
      by blast
  qed
  have fn: "\<exists>c. categories row col = [c] \<and> denotes row col c"
    by (cases "0 \<le> row"; cases "0 \<le> col"; simp add: categories_def)
  have neg: "denotes row col corner \<and> categories row col = [corner]" if "row < 0 \<and> col < 0"
    using that by (simp add: categories_def)
  from one fn neg show ?thesis
    by blast
qed

theorem cell_addressing_total_witness:
  "(- 7 :: int) < 0 \<and> (- 1000 :: int) < 0 \<and> denotes (- 7) (- 1000) corner \<and>
   categories (- 7) (- 1000) = [corner] \<and> categories 3 (- 2) = [row_header] \<and>
   categories (- 1) 4 = [column_header] \<and> categories 0 0 = [body]"
proof -
  have others: "categories 3 (- 2) = [row_header]" "categories (- 1) 4 = [column_header]"
    "categories 0 0 = [body]"
    by (simp_all add: categories_def)
  show ?thesis
    using cell_addressing_total [of "- 7" "- 1000"] others
    by simp
qed

end
